theory Spec2Isabelle
  imports Main "HOL-Library.AList"
begin

section \<open>Failures\<close>

text \<open>
  The source fails in three ways: through the helper \<open>assert(condition, message)\<close> imported
  from \<open>../utils\<close>, through \<open>throw new Error(message)\<close>, and where the language itself
  throws a \<open>TypeError\<close> (a property read on \<open>null\<close>, \<open>new\<close> on a value that is no
  constructor). Each ends the running call; the model returns them as the left summand of a
  sum type, carrying the message.
\<close>

datatype error = AssertionFailed string | Error string | TypeError string

text \<open>
  Modelled from the spec: \<open>utils.assert\<close> is imported by \<open>parser/nodes.ts\<close> and is not among
  the source files. The spec describes every failed check as a fatal failure that reaches the
  caller; the model fails with the message when the condition is false and does nothing
  otherwise.
\<close>

definition assert :: "bool \<Rightarrow> string \<Rightarrow> error + unit" where
  "assert condition message = (if condition then Inr () else Inl (AssertionFailed message))"

section \<open>Scopes (\<open>parser/nodes.ts\<close>, classes \<open>SVScopeDefinition\<close> and \<open>SVScope\<close>)\<close>

datatype SVScopeDefinitionKindType = KLet | KVar | KConst

text \<open>
  \<open>SVScopeDefinition\<close>: the fields \<open>id\<close>, \<open>kind\<close>, \<open>constant\<close> and \<open>scope\<close>. The field
  \<open>scope\<close> points back to the owning scope object; the model keeps the \<open>id\<close> of that scope
  in its place, since the object graph scope \<open>\<rightarrow>\<close> variables \<open>\<rightarrow>\<close> definition \<open>\<rightarrow>\<close> scope
  is cyclic.
\<close>

record SVScopeDefinition =
  def_id :: nat
  kind :: SVScopeDefinitionKindType
  "constant" :: bool
  scope :: nat

text \<open>
  \<open>SVScope\<close>: \<open>id\<close>, \<open>parent\<close> (\<open>null\<close> is \<open>None\<close>) and \<open>variables\<close>. A JavaScript \<open>Map\<close>
  keeps its keys in insertion order, and \<open>set\<close> on a key that is present replaces the
  value where it stands: this is an association list under \<open>AList.update\<close>, \<open>has\<close> and
  \<open>get\<close> are \<open>map_of\<close>, and \<open>size\<close> is the length.
\<close>

datatype SVScope =
  SVScope (scope_id: nat) (parent: "SVScope option")
    (variables: "(string \<times> SVScopeDefinition) list")

text \<open>The constructor: \<open>parent ?? null\<close>, and an empty map.\<close>

definition SVScope_new :: "nat \<Rightarrow> SVScope option \<Rightarrow> SVScope" where
  "SVScope_new i p = SVScope i p []"

definition hasVariable :: "SVScope \<Rightarrow> string \<Rightarrow> bool" where
  "hasVariable s name = (map_of (variables s) name \<noteq> None)"

text \<open>
  \<open>this.variables.has(name) || !!(this.parent && this.parent.hasVariable(name))\<close>: the
  parent is asked with \<open>hasVariable\<close>, which looks at the parent's own map only.
\<close>

definition hasVariableInParentRoot :: "SVScope \<Rightarrow> string \<Rightarrow> bool" where
  "hasVariableInParentRoot s name =
     (map_of (variables s) name \<noteq> None \<or>
      (case parent s of None \<Rightarrow> False | Some p \<Rightarrow> hasVariable p name))"

definition getVariable :: "SVScope \<Rightarrow> string \<Rightarrow> error + SVScopeDefinition" where
  "getVariable s name =
     (let definition = map_of (variables s) name in
      case assert (definition \<noteq> None) (name @ '' is not defined.'') of
        Inl e \<Rightarrow> Inl e
      | Inr _ \<Rightarrow> (case definition of
                   Some d \<Rightarrow> Inr d
                 | None \<Rightarrow> Inl (AssertionFailed (name @ '' is not defined.''))))"

fun getVariableInParentRoot :: "SVScope \<Rightarrow> string \<Rightarrow> error + SVScopeDefinition" where
  "getVariableInParentRoot (SVScope i par vars) name =
     (if hasVariable (SVScope i par vars) name then getVariable (SVScope i par vars) name
      else (case par of
              Some p \<Rightarrow> getVariableInParentRoot p name
            | None \<Rightarrow> Inl (Error (name @ '' is not defined.''))))"

text \<open>
  \<open>defineVariable\<close> changes \<open>this.variables\<close>; the model returns the new definition
  together with the scope after the call.
\<close>

definition defineVariable ::
  "SVScope \<Rightarrow> string \<Rightarrow> SVScopeDefinitionKindType \<Rightarrow> bool \<Rightarrow> error + (SVScopeDefinition \<times> SVScope)"
where
  "defineVariable s name k c =
     (let isDefined = (map_of (variables s) name \<noteq> None) in
      case assert (\<not> isDefined \<or> k = KVar) (name @ '' is already defined.'') of
        Inl e \<Rightarrow> Inl e
      | Inr _ \<Rightarrow>
          (let definition = \<lparr>def_id = length (variables s), kind = k, constant = c,
                             scope = scope_id s\<rparr>
           in Inr (definition,
                   SVScope (scope_id s) (parent s) (AList.update name definition (variables s)))))"

text \<open>A run of \<open>defineVariable\<close> calls on one scope, stopping at the first failure.\<close>

fun defineVariables ::
  "SVScope \<Rightarrow> (string \<times> SVScopeDefinitionKindType \<times> bool) list \<Rightarrow>
   error + (SVScopeDefinition list \<times> SVScope)"
where
  "defineVariables s [] = Inr ([], s)"
| "defineVariables s ((name, k, c) # rest) =
     (case defineVariable s name k c of
        Inl e \<Rightarrow> Inl e
      | Inr (d, s') \<Rightarrow>
          (case defineVariables s' rest of
             Inl e \<Rightarrow> Inl e
           | Inr (ds, s'') \<Rightarrow> Inr (d # ds, s'')))"

text \<open>The scope itself followed by its ancestors, nearest first.\<close>

fun chain :: "SVScope \<Rightarrow> SVScope list" where
  "chain (SVScope i par vars) =
     SVScope i par vars # (case par of None \<Rightarrow> [] | Some p \<Rightarrow> chain p)"

section \<open>Output nodes (\<open>parser/nodes.ts\<close>)\<close>

text \<open>
  A JavaScript value, as far as \<open>typeof\<close> tells values apart. The code copies numbers and
  never computes with them, so their representation is the type parameter \<open>'n\<close>. Objects and
  functions are references.
\<close>

datatype 'n JSValue =
    JSString string
  | JSNumber 'n
  | JSBoolean bool
  | JSUndefined
  | JSNull
  | JSBigInt int
  | JSSymbol string
  | JSObject nat
  | JSFunction nat

fun typeof :: "'n JSValue \<Rightarrow> string" where
  "typeof (JSString _) = ''string''"
| "typeof (JSNumber _) = ''number''"
| "typeof (JSBoolean _) = ''boolean''"
| "typeof JSUndefined = ''undefined''"
| "typeof JSNull = ''object''"
| "typeof (JSBigInt _) = ''bigint''"
| "typeof (JSSymbol _) = ''symbol''"
| "typeof (JSObject _) = ''object''"
| "typeof (JSFunction _) = ''function''"

text \<open>
  The classes of nodes that the parser imports, as \<open>parser/nodes.ts\<close> declares them. The
  parser hands the result of \<open>scanNode\<close>, which may be \<open>undefined\<close>, to the constructors
  under a non-null assertion \<open>!\<close> that TypeScript erases, so a child is an \<open>option\<close>.
  \<open>SVVariableDefinitionType\<close> has the fields \<open>name\<close>, \<open>kind\<close>, \<open>constant\<close> and
  \<open>value\<close>; the object that the parser pushes, \<open>{name, constant, value}\<close>, sets no
  \<open>kind\<close>, which is \<open>None\<close> then.
\<close>

datatype 'n SVNode =
    SVLiteral (lit_value: "'n JSValue")
  | SVBinaryExpression "'n SVNode option" "'n SVNode option" string
  | SVLogicalExpression "'n SVNode option" "'n SVNode option" string
  | SVUnaryExpression "'n SVNode option" string
  | SVArrayExpression (elements: "'n SVNode option list")
  | SVIdentifier string bool
  | SVVariableDefinition "'n SVVariableDefinitionType list"
and 'n SVVariableDefinitionType =
    SVVariableDefinitionType (var_name: string) (var_kind: "SVScopeDefinitionKindType option")
      (var_constant: bool) (var_value: "'n SVNode option")

fun nodeType :: "'n SVNode \<Rightarrow> string" where
  "nodeType (SVLiteral _) = ''Literal''"
| "nodeType (SVBinaryExpression _ _ _) = ''BinaryExpression''"
| "nodeType (SVLogicalExpression _ _ _) = ''LogicalExpression''"
| "nodeType (SVUnaryExpression _ _) = ''UnaryExpression''"
| "nodeType (SVArrayExpression _) = ''ArrayExpression''"
| "nodeType (SVIdentifier _ _) = ''Identifier''"
| "nodeType (SVVariableDefinition _) = ''VariableDefinition''"

text \<open>
  The parser imports \<open>SVDefinition\<close> from \<open>./nodes\<close>, and \<open>parser/nodes.ts\<close> exports no
  such name (its class of the variable definition node is \<open>SVVariableDefinition\<close>). The
  imported binding is \<open>undefined\<close>, and \<open>new SVDefinition(variables)\<close> evaluates its
  argument and throws a \<open>TypeError\<close>.
\<close>

definition SVDefinition_new :: "'n SVVariableDefinitionType list \<Rightarrow> error + 'n SVNode" where
  "SVDefinition_new vars = Inl (TypeError ''SVDefinition is not a constructor'')"

text \<open>
  The first parameter of the constructor of \<open>SVLiteral\<close> has the type
  \<open>"string" | "number" | "boolean"\<close>.
\<close>

datatype LiteralValueType = TString | TNumber | TBoolean

fun typeName :: "LiteralValueType \<Rightarrow> string" where
  "typeName TString = ''string''"
| "typeName TNumber = ''number''"
| "typeName TBoolean = ''boolean''"

fun SVLiteral_new :: "LiteralValueType \<Rightarrow> 'n JSValue \<Rightarrow> error + 'n SVNode" where
  "SVLiteral_new TString v =
     (case assert (typeof v = ''string'')
             ''The value of a string literal node must be of type string'' of
        Inl e \<Rightarrow> Inl e
      | Inr _ \<Rightarrow> Inr (SVLiteral v))"
| "SVLiteral_new TNumber v =
     (case assert (typeof v = ''number'')
             ''The value of a numeric literal node must be of type number'' of
        Inl e \<Rightarrow> Inl e
      | Inr _ \<Rightarrow> Inr (SVLiteral v))"
| "SVLiteral_new TBoolean v =
     (case assert (typeof v = ''boolean'')
             ''The value of a boolean literal node must be of type boolean'' of
        Inl e \<Rightarrow> Inl e
      | Inr _ \<Rightarrow> Inr (SVLiteral v))"

section \<open>The source tree\<close>

text \<open>
  The tree of the external parser, as \<open>scanNode\<close> reads it. Every node carries the place
  of its text, \<open>start\<close> and \<open>end\<close>, which the code never reads: with it two nodes from
  different places of the text are different values, as the two objects are in the code.
  The shape of a node is its \<open>type\<close> with the fields that \<open>scanNode\<close> uses: the ten
  types of the \<open>switch\<close>, and \<open>OtherNode\<close> for a node of any other type (the type tag is
  kept, the children are never visited). The operators and the declaration kind are the
  strings of the tree. An element of an array is a node, or \<open>null\<close> where the text elides
  the element (a hole, as in \<open>[1, , 2]\<close>); the initializer \<open>init\<close> of a declarator may
  be missing.
\<close>

datatype 'n Node =
    Node (node_start: nat) (node_end: nat) (shape: "'n NodeShape")
and 'n NodeShape =
    StringLiteral string
  | NumericLiteral 'n
  | BooleanLiteral bool
  | BinaryExpression "'n Node" "'n Node" string
  | LogicalExpression "'n Node" "'n Node" string
  | UnaryExpression "'n Node" string
  | ArrayExpression "'n Node option list"
  | ExpressionStatement "'n Node"
  | Identifier string
  | VariableDeclaration string "'n VariableDeclarator list"
  | OtherNode string
and 'n VariableDeclarator =
    VariableDeclarator "'n Node" "'n Node option"

section \<open>The parser (\<open>class Parser\<close>)\<close>

record 'n Parser =
  globals :: "string set"
  nodesRoot :: "'n SVNode list"

definition Parser_new :: "'n Parser" where
  "Parser_new = \<lparr>globals = {}, nodesRoot = []\<rparr>"

text \<open>
  The end of \<open>scanNode\<close>:
  \<open>if(svNode !== undefined && isForRoot) this.nodesRoot.push(svNode)\<close>.
\<close>

definition pushRoot :: "'n Parser \<Rightarrow> 'n SVNode option \<Rightarrow> bool \<Rightarrow> 'n Parser" where
  "pushRoot p svNode isForRoot =
     (case svNode of
        Some sv \<Rightarrow> if isForRoot then p\<lparr>nodesRoot := nodesRoot p @ [sv]\<rparr> else p
      | None \<Rightarrow> p)"

text \<open>
  \<open>scanNode\<close> reads \<open>this.globals\<close>, appends to \<open>this.nodesRoot\<close> and, in the array case,
  reverses the element array of the node it is given (\<open>Array.prototype.reverse\<close> works in
  place). It returns the new node or \<open>undefined\<close>, or it throws. What it has done to the
  tree and to the parser stays done when it throws, so the model returns three things: the
  outcome (the error, or what is returned), the source node as the call leaves it, and the
  parser as the call leaves it. \<open>scanElements\<close> is the loop of the array case and
  \<open>scanDeclarations\<close> the loop of the declaration case; both push onto a local array, which
  the model returns first element first. In \<open>scanElements\<close> an element that is \<open>null\<close>
  reaches \<open>switch(node.type)\<close>, where the read of \<open>type\<close> throws a \<open>TypeError\<close>.
\<close>

function (sequential)
  scanNode :: "'n Parser \<Rightarrow> 'n Node \<Rightarrow> bool \<Rightarrow>
    (error + 'n SVNode option) \<times> 'n Node \<times> 'n Parser"
and
  scanElements :: "'n Parser \<Rightarrow> 'n Node option list \<Rightarrow>
    (error + 'n SVNode option list) \<times> 'n Node option list \<times> 'n Parser"
and
  scanDeclarations :: "'n Parser \<Rightarrow> string \<Rightarrow> 'n VariableDeclarator list \<Rightarrow>
    (error + 'n SVVariableDefinitionType list) \<times> 'n VariableDeclarator list \<times> 'n Parser"
where
  "scanNode p (Node s e (StringLiteral v)) isForRoot =
     (case SVLiteral_new TString (JSString v) of
        Inl err \<Rightarrow> (Inl err, Node s e (StringLiteral v), p)
      | Inr svNode \<Rightarrow>
          (Inr (Some svNode), Node s e (StringLiteral v), pushRoot p (Some svNode) isForRoot))"
| "scanNode p (Node s e (NumericLiteral v)) isForRoot =
     (case SVLiteral_new TNumber (JSNumber v) of
        Inl err \<Rightarrow> (Inl err, Node s e (NumericLiteral v), p)
      | Inr svNode \<Rightarrow>
          (Inr (Some svNode), Node s e (NumericLiteral v), pushRoot p (Some svNode) isForRoot))"
| "scanNode p (Node s e (BooleanLiteral v)) isForRoot =
     (case SVLiteral_new TBoolean (JSBoolean v) of
        Inl err \<Rightarrow> (Inl err, Node s e (BooleanLiteral v), p)
      | Inr svNode \<Rightarrow>
          (Inr (Some svNode), Node s e (BooleanLiteral v), pushRoot p (Some svNode) isForRoot))"
| "scanNode p (Node s e (BinaryExpression l r operator)) isForRoot =
     (case scanNode p l False of
        (Inl err, l', p1) \<Rightarrow> (Inl err, Node s e (BinaryExpression l' r operator), p1)
      | (Inr left, l', p1) \<Rightarrow>
          (case scanNode p1 r False of
             (Inl err, r', p2) \<Rightarrow> (Inl err, Node s e (BinaryExpression l' r' operator), p2)
           | (Inr right, r', p2) \<Rightarrow>
               (Inr (Some (SVBinaryExpression left right operator)),
                Node s e (BinaryExpression l' r' operator),
                pushRoot p2 (Some (SVBinaryExpression left right operator)) isForRoot)))"
| "scanNode p (Node s e (LogicalExpression l r operator)) isForRoot =
     (case scanNode p l False of
        (Inl err, l', p1) \<Rightarrow> (Inl err, Node s e (LogicalExpression l' r operator), p1)
      | (Inr left, l', p1) \<Rightarrow>
          (case scanNode p1 r False of
             (Inl err, r', p2) \<Rightarrow> (Inl err, Node s e (LogicalExpression l' r' operator), p2)
           | (Inr right, r', p2) \<Rightarrow>
               (Inr (Some (SVLogicalExpression left right operator)),
                Node s e (LogicalExpression l' r' operator),
                pushRoot p2 (Some (SVLogicalExpression left right operator)) isForRoot)))"
| "scanNode p (Node s e (UnaryExpression argument operator)) isForRoot =
     (case scanNode p argument False of
        (Inl err, argument', p1) \<Rightarrow> (Inl err, Node s e (UnaryExpression argument' operator), p1)
      | (Inr arg, argument', p1) \<Rightarrow>
          (Inr (Some (SVUnaryExpression arg operator)),
           Node s e (UnaryExpression argument' operator),
           pushRoot p1 (Some (SVUnaryExpression arg operator)) isForRoot))"
| "scanNode p (Node s e (ArrayExpression es)) isForRoot =
     (case scanElements p (rev es) of
        (Inl err, es', p1) \<Rightarrow> (Inl err, Node s e (ArrayExpression es'), p1)
      | (Inr nodeElements, es', p1) \<Rightarrow>
          (Inr (Some (SVArrayExpression nodeElements)),
           Node s e (ArrayExpression es'),
           pushRoot p1 (Some (SVArrayExpression nodeElements)) isForRoot))"
| "scanNode p (Node s e (ExpressionStatement expression)) isForRoot =
     (case scanNode p expression False of
        (Inl err, expression', p1) \<Rightarrow> (Inl err, Node s e (ExpressionStatement expression'), p1)
      | (Inr _, expression', p1) \<Rightarrow>
          (Inr None, Node s e (ExpressionStatement expression'), pushRoot p1 None isForRoot))"
| "scanNode p (Node s e (Identifier name)) isForRoot =
     (Inr (Some (SVIdentifier name (name \<in> globals p))),
      Node s e (Identifier name),
      pushRoot p (Some (SVIdentifier name (name \<in> globals p))) isForRoot)"
| "scanNode p (Node s e (VariableDeclaration k declarations)) isForRoot =
     (case scanDeclarations p k declarations of
        (Inl err, declarations', p1) \<Rightarrow>
          (Inl err, Node s e (VariableDeclaration k declarations'), p1)
      | (Inr vars, declarations', p1) \<Rightarrow>
          (case SVDefinition_new vars of
             Inl err \<Rightarrow> (Inl err, Node s e (VariableDeclaration k declarations'), p1)
           | Inr svNode \<Rightarrow>
               (Inr (Some svNode),
                Node s e (VariableDeclaration k declarations'),
                pushRoot p1 (Some svNode) isForRoot)))"
| "scanNode p (Node s e (OtherNode t)) isForRoot =
     (Inr None, Node s e (OtherNode t), pushRoot p None isForRoot)"
| "scanElements p [] = (Inr [], [], p)"
| "scanElements p (None # rest) =
     (Inl (TypeError ''Cannot read properties of null (reading 'type')''), None # rest, p)"
| "scanElements p (Some element # rest) =
     (case scanNode p element False of
        (Inl err, element', p1) \<Rightarrow> (Inl err, Some element' # rest, p1)
      | (Inr node, element', p1) \<Rightarrow>
          (case scanElements p1 rest of
             (Inl err, rest', p2) \<Rightarrow> (Inl err, Some element' # rest', p2)
           | (Inr nodes, rest', p2) \<Rightarrow> (Inr (node # nodes), Some element' # rest', p2)))"
| "scanDeclarations p k [] = (Inr [], [], p)"
| "scanDeclarations p k (VariableDeclarator (Node s e (Identifier name)) None # rest) =
     (case scanDeclarations p k rest of
        (Inl err, rest', p1) \<Rightarrow>
          (Inl err, VariableDeclarator (Node s e (Identifier name)) None # rest', p1)
      | (Inr vars, rest', p1) \<Rightarrow>
          (Inr (SVVariableDefinitionType name None (k = ''const'') None # vars),
           VariableDeclarator (Node s e (Identifier name)) None # rest', p1))"
| "scanDeclarations p k (VariableDeclarator (Node s e (Identifier name)) (Some init) # rest) =
     (case scanNode p init False of
        (Inl err, init', p1) \<Rightarrow>
          (Inl err, VariableDeclarator (Node s e (Identifier name)) (Some init') # rest, p1)
      | (Inr v, init', p1) \<Rightarrow>
          (case scanDeclarations p1 k rest of
             (Inl err, rest', p2) \<Rightarrow>
               (Inl err, VariableDeclarator (Node s e (Identifier name)) (Some init') # rest', p2)
           | (Inr vars, rest', p2) \<Rightarrow>
               (Inr (SVVariableDefinitionType name None (k = ''const'') v # vars),
                VariableDeclarator (Node s e (Identifier name)) (Some init') # rest', p2)))"
| "scanDeclarations p k (VariableDeclarator pattern init # rest) =
     (case scanDeclarations p k rest of
        (Inl err, rest', p1) \<Rightarrow> (Inl err, VariableDeclarator pattern init # rest', p1)
      | (Inr vars, rest', p1) \<Rightarrow> (Inr vars, VariableDeclarator pattern init # rest', p1))"
  by pat_completeness auto
termination
  by (relation "measure (\<lambda>x. case x of
          Inl (p, n, r) \<Rightarrow> size n
        | Inr (Inl (p, es)) \<Rightarrow> size_list (size_option size) es
        | Inr (Inr (p, k, ds)) \<Rightarrow> size_list size ds)")
     (auto simp add: size_list_conv_sum_list rev_map [symmetric])

text \<open>
  \<open>parse\<close>. The text is parsed by \<open>parseCode\<close> and walked by \<open>traverse\<close>, both outside the
  source files: the model takes their results, the statements \<open>tree.program.body\<close> and
  the visited identifiers, each with the answer of \<open>path.scope.hasGlobal\<close>.
\<close>

definition visitIdentifier :: "'n Parser \<Rightarrow> string \<times> bool \<Rightarrow> 'n Parser" where
  "visitIdentifier p occurrence =
     (case occurrence of (name, isGlobal) \<Rightarrow>
        if \<not> isGlobal \<or> name \<in> globals p then p
        else p\<lparr>globals := insert name (globals p)\<rparr>)"

text \<open>The loop of \<open>parse\<close> over the statements; it stops where a scan throws.\<close>

fun scanBody :: "'n Parser \<Rightarrow> 'n Node list \<Rightarrow> (error + unit) \<times> 'n Node list \<times> 'n Parser" where
  "scanBody p [] = (Inr (), [], p)"
| "scanBody p (node # rest) =
     (case scanNode p node True of
        (Inl err, node', p1) \<Rightarrow> (Inl err, node' # rest, p1)
      | (Inr _, node', p1) \<Rightarrow>
          (case scanBody p1 rest of
             (out, rest', p2) \<Rightarrow> (out, node' # rest', p2)))"

text \<open>
  The result is \<open>this.nodesRoot\<close>, unless a scan throws; the model returns with it the
  statements and the parser as the call leaves them.
\<close>

definition parse ::
  "'n Parser \<Rightarrow> (string \<times> bool) list \<Rightarrow> 'n Node list \<Rightarrow>
   (error + 'n SVNode list) \<times> 'n Node list \<times> 'n Parser"
where
  "parse p identifiers body =
     (case scanBody (foldl visitIdentifier p identifiers) body of
        (Inl err, body', p1) \<Rightarrow> (Inl err, body', p1)
      | (Inr _, body', p1) \<Rightarrow> (Inr (nodesRoot p1), body', p1))"

text \<open>
  A scan as a child: its outcome, the node it returns (none when it throws or returns
  \<open>undefined\<close>), and the source node as it leaves it.
\<close>

definition outcome :: "'n Parser \<Rightarrow> 'n Node \<Rightarrow> error + 'n SVNode option" where
  "outcome p n = fst (scanNode p n False)"

definition scanned :: "'n Parser \<Rightarrow> 'n Node \<Rightarrow> 'n SVNode option" where
  "scanned p n = (case outcome p n of Inl _ \<Rightarrow> None | Inr svNode \<Rightarrow> svNode)"

definition nodeAfter :: "'n Parser \<Rightarrow> 'n Node \<Rightarrow> 'n Node" where
  "nodeAfter p n = fst (snd (scanNode p n False))"

definition throws :: "'n Parser \<Rightarrow> 'n Node \<Rightarrow> bool" where
  "throws p n = isl (outcome p n)"


text \<open>The two loops run on their own: the outcome, and the list as the loop leaves it.\<close>

definition elementsOutcome :: "'n Parser \<Rightarrow> 'n Node option list \<Rightarrow> error + 'n SVNode option list" where
  "elementsOutcome p es = fst (scanElements p es)"

definition elementsAfter :: "'n Parser \<Rightarrow> 'n Node option list \<Rightarrow> 'n Node option list" where
  "elementsAfter p es = fst (snd (scanElements p es))"

definition declarationsOutcome ::
  "'n Parser \<Rightarrow> string \<Rightarrow> 'n VariableDeclarator list \<Rightarrow> error + 'n SVVariableDefinitionType list"
where
  "declarationsOutcome p k ds = fst (scanDeclarations p k ds)"

definition declarationsAfter ::
  "'n Parser \<Rightarrow> string \<Rightarrow> 'n VariableDeclarator list \<Rightarrow> 'n VariableDeclarator list"
where
  "declarationsAfter p k ds = fst (snd (scanDeclarations p k ds))"

section \<open>Example scopes\<close>

text \<open>Three nested scopes; only the outermost one binds \<open>x\<close>.\<close>

definition binding_x :: SVScopeDefinition where
  "binding_x = \<lparr>def_id = 0, kind = KVar, constant = False, scope = 0\<rparr>"

definition outer_scope :: SVScope where
  "outer_scope = SVScope 0 None [(''x'', binding_x)]"

definition middle_scope :: SVScope where
  "middle_scope = SVScope 1 (Some outer_scope) []"

definition inner_scope :: SVScope where
  "inner_scope = SVScope 2 (Some middle_scope) []"

text \<open>A scope whose only binding is \<open>let x\<close>.\<close>

definition scope_let_x :: SVScope where
  "scope_let_x = SVScope 0 None [(''x'', \<lparr>def_id = 0, kind = KLet, constant = False, scope = 0\<rparr>)]"

text \<open>A scope with the bindings \<open>var a\<close> and \<open>var b\<close>, as two calls of \<open>defineVariable\<close> leave it.\<close>

definition scope_a_b :: SVScope where
  "scope_a_b = SVScope 7 None
     [(''a'', \<lparr>def_id = 0, kind = KVar, constant = False, scope = 7\<rparr>),
      (''b'', \<lparr>def_id = 1, kind = KVar, constant = False, scope = 7\<rparr>)]"

section \<open>Example trees\<close>

text \<open>
  The statement \<open>[1, 2];\<close> as the external parser gives it, and as a scan leaves it.
\<close>

definition statement_1_2 :: "int Node" where
  "statement_1_2 = Node 0 7 (ExpressionStatement (Node 0 6 (ArrayExpression
      [Some (Node 1 2 (NumericLiteral 1)), Some (Node 4 5 (NumericLiteral 2))])))"

definition statement_2_1 :: "int Node" where
  "statement_2_1 = Node 0 7 (ExpressionStatement (Node 0 6 (ArrayExpression
      [Some (Node 4 5 (NumericLiteral 2)), Some (Node 1 2 (NumericLiteral 1))])))"

section \<open>Lemmas about scopes\<close>

lemma find_first: "\<forall>u\<in>set pre. \<not> P u \<Longrightarrow> P t \<Longrightarrow> List.find P (pre @ t # post) = Some t"
  by (induction pre) auto

lemma find_none: "\<forall>u\<in>set xs. \<not> P u \<Longrightarrow> List.find P xs = None"
  by (induction xs) auto

lemma getVariable_Some: "map_of (variables t) name = Some d \<Longrightarrow> getVariable t name = Inr d"
  by (simp add: getVariable_def assert_def)

lemma getVariableInParentRoot_find:
  "getVariableInParentRoot s name =
     (case List.find (\<lambda>t. hasVariable t name) (chain s) of
        None \<Rightarrow> Inl (Error (name @ '' is not defined.''))
      | Some t \<Rightarrow> getVariable t name)"
  by (induction s name rule: getVariableInParentRoot.induct) (simp split: option.splits)

lemma length_update_present:
  "map_of al k \<noteq> None \<Longrightarrow> length (AList.update k v al) = length al"
  by (induction al) auto

section \<open>Lemmas about the parser\<close>

lemma pushRoot_False [simp]: "pushRoot p sv False = p"
  by (simp add: pushRoot_def split: option.splits)

lemma pushRoot_None [simp]: "pushRoot p None r = p"
  by (simp add: pushRoot_def)

lemma scan_frame:
  "snd (snd (scanNode p n r)) =
     pushRoot p (case fst (scanNode p n r) of Inl _ \<Rightarrow> None | Inr sv \<Rightarrow> sv) r"
  "snd (snd (scanElements p es)) = p"
  "snd (snd (scanDeclarations p k ds)) = p"
  by (induction p n r and p es and p k ds rule: scanNode_scanElements_scanDeclarations.induct)
     (auto simp add: assert_def SVDefinition_new_def split: prod.splits sum.splits)


lemma scanNode_child: "scanNode p n False = (outcome p n, nodeAfter p n, p)"
  using scan_frame(1) [of p n False] by (simp add: outcome_def nodeAfter_def prod_eq_iff)

lemma scanNode_flag:
  "fst (scanNode p n r) = outcome p n" "fst (snd (scanNode p n r)) = nodeAfter p n"
  unfolding outcome_def nodeAfter_def
  by (cases n; cases "shape n"; auto split: prod.splits sum.splits)+

lemma scanNode_result:
  "scanNode p n r = (outcome p n, nodeAfter p n, pushRoot p (scanned p n) r)"
  using scan_frame(1) [of p n r] by (simp add: prod_eq_iff scanNode_flag scanned_def)


lemma scanElements_result: "scanElements p es = (elementsOutcome p es, elementsAfter p es, p)"
  using scan_frame(2) [of p es] by (simp add: elementsOutcome_def elementsAfter_def prod_eq_iff)

lemma scanDeclarations_result:
  "scanDeclarations p k ds = (declarationsOutcome p k ds, declarationsAfter p k ds, p)"
  using scan_frame(3) [of p k ds]
  by (simp add: declarationsOutcome_def declarationsAfter_def prod_eq_iff)

text \<open>The equations of the scan, with the scans of the children folded.\<close>

lemma scanNode_BinaryExpression:
  "scanNode p (Node s e (BinaryExpression l r operator)) isForRoot =
     (case outcome p l of
        Inl err \<Rightarrow> (Inl err, Node s e (BinaryExpression (nodeAfter p l) r operator), p)
      | Inr left \<Rightarrow>
          (case outcome p r of
             Inl err \<Rightarrow>
               (Inl err, Node s e (BinaryExpression (nodeAfter p l) (nodeAfter p r) operator), p)
           | Inr right \<Rightarrow>
               (Inr (Some (SVBinaryExpression left right operator)),
                Node s e (BinaryExpression (nodeAfter p l) (nodeAfter p r) operator),
                pushRoot p (Some (SVBinaryExpression left right operator)) isForRoot)))"
  by (subst scanNode.simps) (simp add: scanNode_child split: sum.splits)

lemma scanNode_LogicalExpression:
  "scanNode p (Node s e (LogicalExpression l r operator)) isForRoot =
     (case outcome p l of
        Inl err \<Rightarrow> (Inl err, Node s e (LogicalExpression (nodeAfter p l) r operator), p)
      | Inr left \<Rightarrow>
          (case outcome p r of
             Inl err \<Rightarrow>
               (Inl err, Node s e (LogicalExpression (nodeAfter p l) (nodeAfter p r) operator), p)
           | Inr right \<Rightarrow>
               (Inr (Some (SVLogicalExpression left right operator)),
                Node s e (LogicalExpression (nodeAfter p l) (nodeAfter p r) operator),
                pushRoot p (Some (SVLogicalExpression left right operator)) isForRoot)))"
  by (subst scanNode.simps) (simp add: scanNode_child split: sum.splits)

lemma scanNode_UnaryExpression:
  "scanNode p (Node s e (UnaryExpression argument operator)) isForRoot =
     (case outcome p argument of
        Inl err \<Rightarrow> (Inl err, Node s e (UnaryExpression (nodeAfter p argument) operator), p)
      | Inr arg \<Rightarrow>
          (Inr (Some (SVUnaryExpression arg operator)),
           Node s e (UnaryExpression (nodeAfter p argument) operator),
           pushRoot p (Some (SVUnaryExpression arg operator)) isForRoot))"
  by (subst scanNode.simps) (simp add: scanNode_child split: sum.splits)

lemma scanNode_ArrayExpression:
  "scanNode p (Node s e (ArrayExpression es)) isForRoot =
     (case elementsOutcome p (rev es) of
        Inl err \<Rightarrow> (Inl err, Node s e (ArrayExpression (elementsAfter p (rev es))), p)
      | Inr nodeElements \<Rightarrow>
          (Inr (Some (SVArrayExpression nodeElements)),
           Node s e (ArrayExpression (elementsAfter p (rev es))),
           pushRoot p (Some (SVArrayExpression nodeElements)) isForRoot))"
  by (subst scanNode.simps) (simp add: scanElements_result split: sum.splits)

lemma scanNode_ExpressionStatement:
  "scanNode p (Node s e (ExpressionStatement expression)) isForRoot =
     (case outcome p expression of Inl err \<Rightarrow> Inl err | Inr _ \<Rightarrow> Inr None,
      Node s e (ExpressionStatement (nodeAfter p expression)), p)"
  by (subst scanNode.simps) (simp add: scanNode_child split: sum.splits)

lemma scanNode_VariableDeclaration:
  "scanNode p (Node s e (VariableDeclaration k ds)) isForRoot =
     (case declarationsOutcome p k ds of
        Inl err \<Rightarrow> Inl err
      | Inr _ \<Rightarrow> Inl (TypeError ''SVDefinition is not a constructor''),
      Node s e (VariableDeclaration k (declarationsAfter p k ds)), p)"
  by (subst scanNode.simps)
     (simp add: scanDeclarations_result SVDefinition_new_def split: sum.splits)

lemma scanElements_Some:
  "scanElements p (Some x # rest) =
     (case outcome p x of
        Inl err \<Rightarrow> (Inl err, Some (nodeAfter p x) # rest, p)
      | Inr node \<Rightarrow>
          (case elementsOutcome p rest of
             Inl err \<Rightarrow> Inl err
           | Inr nodes \<Rightarrow> Inr (node # nodes),
           Some (nodeAfter p x) # elementsAfter p rest, p))"
  by (subst scanElements.simps)
     (simp add: scanNode_child scanElements_result split: sum.splits)

lemma scanDeclarations_init:
  "scanDeclarations p k (VariableDeclarator (Node s e (Identifier name)) (Some init) # rest) =
     (case outcome p init of
        Inl err \<Rightarrow>
          (Inl err,
           VariableDeclarator (Node s e (Identifier name)) (Some (nodeAfter p init)) # rest, p)
      | Inr v \<Rightarrow>
          (case declarationsOutcome p k rest of
             Inl err \<Rightarrow> Inl err
           | Inr vars \<Rightarrow> Inr (SVVariableDefinitionType name None (k = ''const'') v # vars),
           VariableDeclarator (Node s e (Identifier name)) (Some (nodeAfter p init))
             # declarationsAfter p k rest, p))"
  by (subst scanDeclarations.simps)
     (simp add: scanNode_child scanDeclarations_result split: sum.splits)


lemma scanDeclarations_none:
  "scanDeclarations p k (VariableDeclarator (Node s e (Identifier name)) None # rest) =
     (case declarationsOutcome p k rest of
        Inl err \<Rightarrow> Inl err
      | Inr vars \<Rightarrow> Inr (SVVariableDefinitionType name None (k = ''const'') None # vars),
      VariableDeclarator (Node s e (Identifier name)) None # declarationsAfter p k rest, p)"
  by (subst scanDeclarations.simps) (simp add: scanDeclarations_result split: sum.splits)

lemma scanDeclarations_other:
  assumes "\<forall>name. shape pattern \<noteq> Identifier name"
  shows "scanDeclarations p k (VariableDeclarator pattern i # rest) =
     (declarationsOutcome p k rest, VariableDeclarator pattern i # declarationsAfter p k rest, p)"
  using assms
  apply (cases pattern; cases "shape pattern")
            apply (simp_all del: scanDeclarations.simps)
           apply (subst scanDeclarations.simps,
      simp add: scanDeclarations_result split: sum.splits)+
  done

lemma outcomeI: "scanNode p n False = t \<Longrightarrow> outcome p n = fst t"
  by (simp add: outcome_def)

lemma nodeAfterI: "scanNode p n False = t \<Longrightarrow> nodeAfter p n = fst (snd t)"
  by (simp add: nodeAfter_def)

lemma elementsOutcomeI: "scanElements p es = t \<Longrightarrow> elementsOutcome p es = fst t"
  by (simp add: elementsOutcome_def)

lemma elementsAfterI: "scanElements p es = t \<Longrightarrow> elementsAfter p es = fst (snd t)"
  by (simp add: elementsAfter_def)

lemma declarationsOutcomeI:
  "scanDeclarations p k ds = t \<Longrightarrow> declarationsOutcome p k ds = fst t"
  by (simp add: declarationsOutcome_def)

lemma declarationsAfterI:
  "scanDeclarations p k ds = t \<Longrightarrow> declarationsAfter p k ds = fst (snd t)"
  by (simp add: declarationsAfter_def)

lemma outcome_BinaryExpression:
  "outcome p (Node s e (BinaryExpression l r operator)) =
     (case outcome p l of
        Inl err \<Rightarrow> Inl err
      | Inr left \<Rightarrow>
          (case outcome p r of
             Inl err \<Rightarrow> Inl err
           | Inr right \<Rightarrow> Inr (Some (SVBinaryExpression left right operator))))"
  by (simp add: outcomeI [OF scanNode_BinaryExpression] split: sum.splits)

lemma nodeAfter_BinaryExpression:
  "nodeAfter p (Node s e (BinaryExpression l r operator)) =
     Node s e (BinaryExpression (nodeAfter p l)
       (case outcome p l of Inl _ \<Rightarrow> r | Inr _ \<Rightarrow> nodeAfter p r) operator)"
  by (simp add: nodeAfterI [OF scanNode_BinaryExpression] split: sum.splits)

lemma outcome_LogicalExpression:
  "outcome p (Node s e (LogicalExpression l r operator)) =
     (case outcome p l of
        Inl err \<Rightarrow> Inl err
      | Inr left \<Rightarrow>
          (case outcome p r of
             Inl err \<Rightarrow> Inl err
           | Inr right \<Rightarrow> Inr (Some (SVLogicalExpression left right operator))))"
  by (simp add: outcomeI [OF scanNode_LogicalExpression] split: sum.splits)

lemma nodeAfter_LogicalExpression:
  "nodeAfter p (Node s e (LogicalExpression l r operator)) =
     Node s e (LogicalExpression (nodeAfter p l)
       (case outcome p l of Inl _ \<Rightarrow> r | Inr _ \<Rightarrow> nodeAfter p r) operator)"
  by (simp add: nodeAfterI [OF scanNode_LogicalExpression] split: sum.splits)

lemma outcome_UnaryExpression:
  "outcome p (Node s e (UnaryExpression argument operator)) =
     (case outcome p argument of
        Inl err \<Rightarrow> Inl err
      | Inr arg \<Rightarrow> Inr (Some (SVUnaryExpression arg operator)))"
  by (simp add: outcomeI [OF scanNode_UnaryExpression] split: sum.splits)

lemma nodeAfter_UnaryExpression:
  "nodeAfter p (Node s e (UnaryExpression argument operator)) =
     Node s e (UnaryExpression (nodeAfter p argument) operator)"
  by (simp add: nodeAfterI [OF scanNode_UnaryExpression] split: sum.splits)

lemma outcome_ArrayExpression:
  "outcome p (Node s e (ArrayExpression es)) =
     (case elementsOutcome p (rev es) of
        Inl err \<Rightarrow> Inl err
      | Inr nodeElements \<Rightarrow> Inr (Some (SVArrayExpression nodeElements)))"
  by (simp add: outcomeI [OF scanNode_ArrayExpression] split: sum.splits)

lemma nodeAfter_ArrayExpression:
  "nodeAfter p (Node s e (ArrayExpression es)) =
     Node s e (ArrayExpression (elementsAfter p (rev es)))"
  by (simp add: nodeAfterI [OF scanNode_ArrayExpression] split: sum.splits)

lemma outcome_ExpressionStatement:
  "outcome p (Node s e (ExpressionStatement expression)) =
     (case outcome p expression of Inl err \<Rightarrow> Inl err | Inr _ \<Rightarrow> Inr None)"
  by (simp add: outcomeI [OF scanNode_ExpressionStatement])

lemma nodeAfter_ExpressionStatement:
  "nodeAfter p (Node s e (ExpressionStatement expression)) =
     Node s e (ExpressionStatement (nodeAfter p expression))"
  by (simp add: nodeAfterI [OF scanNode_ExpressionStatement])

lemma outcome_VariableDeclaration:
  "outcome p (Node s e (VariableDeclaration k ds)) =
     (case declarationsOutcome p k ds of
        Inl err \<Rightarrow> Inl err
      | Inr _ \<Rightarrow> Inl (TypeError ''SVDefinition is not a constructor''))"
  by (simp add: outcomeI [OF scanNode_VariableDeclaration])

lemma nodeAfter_VariableDeclaration:
  "nodeAfter p (Node s e (VariableDeclaration k ds)) =
     Node s e (VariableDeclaration k (declarationsAfter p k ds))"
  by (simp add: nodeAfterI [OF scanNode_VariableDeclaration])

lemma outcome_leaf:
  "outcome p (Node s e (StringLiteral v)) = Inr (Some (SVLiteral (JSString v)))"
  "outcome p (Node s e (NumericLiteral x)) = Inr (Some (SVLiteral (JSNumber x)))"
  "outcome p (Node s e (BooleanLiteral b)) = Inr (Some (SVLiteral (JSBoolean b)))"
  "outcome p (Node s e (Identifier name)) = Inr (Some (SVIdentifier name (name \<in> globals p)))"
  "outcome p (Node s e (OtherNode t)) = Inr None"
  by (simp_all add: outcome_def assert_def)

lemma nodeAfter_leaf:
  "nodeAfter p (Node s e (StringLiteral v)) = Node s e (StringLiteral v)"
  "nodeAfter p (Node s e (NumericLiteral x)) = Node s e (NumericLiteral x)"
  "nodeAfter p (Node s e (BooleanLiteral b)) = Node s e (BooleanLiteral b)"
  "nodeAfter p (Node s e (Identifier name)) = Node s e (Identifier name)"
  "nodeAfter p (Node s e (OtherNode t)) = Node s e (OtherNode t)"
  by (simp_all add: nodeAfter_def assert_def)

lemma elementsOutcome_simps:
  "elementsOutcome p [] = Inr []"
  "elementsOutcome p (None # rest) = Inl (TypeError ''Cannot read properties of null (reading 'type')'')"
  "elementsOutcome p (Some x # rest) =
     (case outcome p x of
        Inl err \<Rightarrow> Inl err
      | Inr node \<Rightarrow>
          (case elementsOutcome p rest of
             Inl err \<Rightarrow> Inl err
           | Inr nodes \<Rightarrow> Inr (node # nodes)))"
  by (simp_all add: elementsOutcomeI [OF scanElements.simps(1)]
      elementsOutcomeI [OF scanElements.simps(2)] elementsOutcomeI [OF scanElements_Some]
      split: sum.splits)

lemma elementsAfter_simps:
  "elementsAfter p [] = []"
  "elementsAfter p (None # rest) = None # rest"
  "elementsAfter p (Some x # rest) =
     Some (nodeAfter p x) # (case outcome p x of Inl _ \<Rightarrow> rest | Inr _ \<Rightarrow> elementsAfter p rest)"
  by (simp_all add: elementsAfterI [OF scanElements.simps(1)]
      elementsAfterI [OF scanElements.simps(2)] elementsAfterI [OF scanElements_Some]
      split: sum.splits)

lemma declarationsOutcome_simps:
  "declarationsOutcome p k [] = Inr []"
  "declarationsOutcome p k (VariableDeclarator (Node s e (Identifier name)) None # rest) =
     (case declarationsOutcome p k rest of
        Inl err \<Rightarrow> Inl err
      | Inr vars \<Rightarrow> Inr (SVVariableDefinitionType name None (k = ''const'') None # vars))"
  "declarationsOutcome p k (VariableDeclarator (Node s e (Identifier name)) (Some init) # rest) =
     (case outcome p init of
        Inl err \<Rightarrow> Inl err
      | Inr v \<Rightarrow>
          (case declarationsOutcome p k rest of
             Inl err \<Rightarrow> Inl err
           | Inr vars \<Rightarrow> Inr (SVVariableDefinitionType name None (k = ''const'') v # vars)))"
  by (simp_all add: declarationsOutcomeI [OF scanDeclarations.simps(1)]
      declarationsOutcomeI [OF scanDeclarations_none]
      declarationsOutcomeI [OF scanDeclarations_init] split: sum.splits)

lemma declarationsOutcome_other:
  "\<forall>name. shape pattern \<noteq> Identifier name \<Longrightarrow>
   declarationsOutcome p k (VariableDeclarator pattern i # rest) = declarationsOutcome p k rest"
  by (simp add: declarationsOutcomeI [OF scanDeclarations_other])

lemma declarationsAfter_simps:
  "declarationsAfter p k [] = []"
  "declarationsAfter p k (VariableDeclarator (Node s e (Identifier name)) None # rest) =
     VariableDeclarator (Node s e (Identifier name)) None # declarationsAfter p k rest"
  "declarationsAfter p k (VariableDeclarator (Node s e (Identifier name)) (Some init) # rest) =
     VariableDeclarator (Node s e (Identifier name)) (Some (nodeAfter p init)) #
       (case outcome p init of Inl _ \<Rightarrow> rest | Inr _ \<Rightarrow> declarationsAfter p k rest)"
  by (simp_all add: declarationsAfterI [OF scanDeclarations.simps(1)]
      declarationsAfterI [OF scanDeclarations_none]
      declarationsAfterI [OF scanDeclarations_init] split: sum.splits)

lemma declarationsAfter_other:
  "\<forall>name. shape pattern \<noteq> Identifier name \<Longrightarrow>
   declarationsAfter p k (VariableDeclarator pattern i # rest) =
     VariableDeclarator pattern i # declarationsAfter p k rest"
  by (simp add: declarationsAfterI [OF scanDeclarations_other])


lemmas scan_folded =
  outcome_BinaryExpression nodeAfter_BinaryExpression
  outcome_LogicalExpression nodeAfter_LogicalExpression
  outcome_UnaryExpression nodeAfter_UnaryExpression
  outcome_ArrayExpression nodeAfter_ArrayExpression
  outcome_ExpressionStatement nodeAfter_ExpressionStatement
  outcome_VariableDeclaration nodeAfter_VariableDeclaration
  outcome_leaf nodeAfter_leaf
  elementsOutcome_simps elementsAfter_simps
  declarationsOutcome_simps declarationsAfter_simps
  declarationsOutcome_other declarationsAfter_other

lemma elements_cong:
  assumes "\<And>x. Some x \<in> set es \<Longrightarrow> outcome q x = outcome p x \<and> nodeAfter q x = nodeAfter p x"
  shows "elementsOutcome q es = elementsOutcome p es \<and> elementsAfter q es = elementsAfter p es"
  using assms
proof (induction es)
  case Nil
  show ?case by (simp add: elementsOutcome_simps elementsAfter_simps)
next
  case (Cons x es)
  have "elementsOutcome q es = elementsOutcome p es \<and> elementsAfter q es = elementsAfter p es"
    by (rule Cons.IH, rule Cons.prems) simp
  then have rest: "elementsOutcome q es = elementsOutcome p es"
      "elementsAfter q es = elementsAfter p es"
    by simp_all
  show ?case
  proof (cases x)
    case None
    then show ?thesis by (simp add: elementsOutcome_simps elementsAfter_simps)
  next
    case (Some y)
    with Cons.prems have "outcome q y = outcome p y" "nodeAfter q y = nodeAfter p y"
      by simp_all
    with Some rest show ?thesis
      by (simp add: elementsOutcome_simps elementsAfter_simps split: sum.splits)
  qed
qed

lemma declarations_cong:
  assumes "\<And>i x. VariableDeclarator i (Some x) \<in> set ds \<Longrightarrow>
             outcome q x = outcome p x \<and> nodeAfter q x = nodeAfter p x"
  shows "declarationsOutcome q k ds = declarationsOutcome p k ds \<and>
         declarationsAfter q k ds = declarationsAfter p k ds"
  using assms
proof (induction ds)
  case Nil
  show ?case by (simp add: declarationsOutcome_simps declarationsAfter_simps)
next
  case (Cons d ds)
  have "declarationsOutcome q k ds = declarationsOutcome p k ds \<and>
      declarationsAfter q k ds = declarationsAfter p k ds"
  proof (rule Cons.IH)
    fix i x
    assume "VariableDeclarator i (Some x) \<in> set ds"
    then have "VariableDeclarator i (Some x) \<in> set (d # ds)" by simp
    then show "outcome q x = outcome p x \<and> nodeAfter q x = nodeAfter p x"
      by (rule Cons.prems)
  qed
  then have rest: "declarationsOutcome q k ds = declarationsOutcome p k ds"
      "declarationsAfter q k ds = declarationsAfter p k ds"
    by simp_all
  obtain i init where d: "d = VariableDeclarator i init" by (cases d)
  show ?case
  proof (cases "\<exists>name. shape i = Identifier name")
    case False
    with d rest show ?thesis
      by (simp add: declarationsOutcome_other declarationsAfter_other)
  next
    case True
    then obtain s e name where i: "i = Node s e (Identifier name)" by (cases i) auto
    show ?thesis
    proof (cases init)
      case None
      with d i rest show ?thesis
        by (simp add: declarationsOutcome_simps declarationsAfter_simps)
    next
      case (Some x)
      with d have "VariableDeclarator i (Some x) \<in> set (d # ds)" by simp
      then have "outcome q x = outcome p x \<and> nodeAfter q x = nodeAfter p x"
        by (rule Cons.prems)
      then have "outcome q x = outcome p x" "nodeAfter q x = nodeAfter p x"
        by simp_all
      with Some d i rest show ?thesis
        by (simp add: declarationsOutcome_simps declarationsAfter_simps split: sum.splits)
    qed
  qed
qed

lemma size_element: "Some x \<in> set es \<Longrightarrow> size x < Suc (size_list (size_option size) es)"
  by (induction es) auto

lemma size_init:
  "VariableDeclarator i (Some x) \<in> set ds \<Longrightarrow> size x < Suc (size_list size ds)"
  by (induction ds) auto

lemma scan_globals:
  assumes "globals q = globals p"
  shows "outcome q n = outcome p n \<and> nodeAfter q n = nodeAfter p n"
proof (induction "size n" arbitrary: n rule: less_induct)
  case less
  obtain s e sh where n: "n = Node s e sh" by (cases n)
  show ?case
  proof (cases sh)
    case (BinaryExpression l r operator)
    with n less [of l] less [of r] show ?thesis
      by (simp add: outcome_BinaryExpression nodeAfter_BinaryExpression split: sum.splits)
  next
    case (LogicalExpression l r operator)
    with n less [of l] less [of r] show ?thesis
      by (simp add: outcome_LogicalExpression nodeAfter_LogicalExpression split: sum.splits)
  next
    case (UnaryExpression a operator)
    with n less [of a] show ?thesis
      by (simp add: outcome_UnaryExpression nodeAfter_UnaryExpression)
  next
    case (ArrayExpression es)
    have "outcome q x = outcome p x \<and> nodeAfter q x = nodeAfter p x"
      if "Some x \<in> set (rev es)" for x
    proof -
      from that have "size x < size n"
        using size_element [of x es] n ArrayExpression by simp
      then show ?thesis by (rule less)
    qed
    then have "elementsOutcome q (rev es) = elementsOutcome p (rev es) \<and>
        elementsAfter q (rev es) = elementsAfter p (rev es)"
      by (rule elements_cong)
    with n ArrayExpression show ?thesis
      by (simp add: outcome_ArrayExpression nodeAfter_ArrayExpression)
  next
    case (ExpressionStatement x)
    with n less [of x] show ?thesis
      by (simp add: outcome_ExpressionStatement nodeAfter_ExpressionStatement)
  next
    case (VariableDeclaration k ds)
    have "outcome q x = outcome p x \<and> nodeAfter q x = nodeAfter p x"
      if "VariableDeclarator i (Some x) \<in> set ds" for i x
    proof -
      from that have "size x < size n"
        using size_init [of i x ds] n VariableDeclaration by simp
      then show ?thesis by (rule less)
    qed
    then have "declarationsOutcome q k ds = declarationsOutcome p k ds \<and>
         declarationsAfter q k ds = declarationsAfter p k ds"
      by (rule declarations_cong)
    with n VariableDeclaration show ?thesis
      by (simp add: outcome_VariableDeclaration nodeAfter_VariableDeclaration)
  qed (simp_all add: n outcome_leaf nodeAfter_leaf assms)
qed





lemma declarationsOutcome_present:
  assumes "\<forall>i x. VariableDeclarator i (Some x) \<in> set ds \<longrightarrow> \<not> throws p x"
  shows "\<exists>vars. declarationsOutcome p k ds = Inr vars"
  using assms
proof (induction ds)
  case Nil
  show ?case by (simp add: declarationsOutcome_simps)
next
  case (Cons d ds)
  then obtain vars where rest: "declarationsOutcome p k ds = Inr vars" by auto
  obtain i init where d: "d = VariableDeclarator i init" by (cases d)
  show ?case
  proof (cases "\<exists>name. shape i = Identifier name")
    case False
    with d rest show ?thesis by (simp add: declarationsOutcome_other)
  next
    case True
    then obtain s e name where i: "i = Node s e (Identifier name)" by (cases i) auto
    show ?thesis
    proof (cases init)
      case None
      with d i rest show ?thesis by (simp add: declarationsOutcome_simps)
    next
      case (Some x)
      with d Cons.prems have "\<not> throws p x" by auto
      with Some d i rest show ?thesis
        by (auto simp add: declarationsOutcome_simps throws_def split: sum.splits)
    qed
  qed
qed

lemma globals_pushRoot [simp]: "globals (pushRoot p sv r) = globals p"
  by (simp add: pushRoot_def split: option.splits)

lemma scan_same_globals:
  assumes "globals q = globals p"
  shows "outcome q n = outcome p n" and "nodeAfter q n = nodeAfter p n"
    and "scanned q n = scanned p n" and "throws q n = throws p n"
  using scan_globals [OF assms, of n] by (simp_all add: scanned_def throws_def)

lemma scanBody_append:
  "scanBody p (xs @ ys) =
     (case scanBody p xs of
        (Inl err, xs', p1) \<Rightarrow> (Inl err, xs' @ ys, p1)
      | (Inr _, xs', p1) \<Rightarrow>
          (case scanBody p1 ys of (out, ys', p2) \<Rightarrow> (out, xs' @ ys', p2)))"
  by (induction xs arbitrary: p)
     (auto simp add: scanNode_result split: prod.splits sum.splits)

lemma scanBody_succeeds:
  assumes "\<forall>n\<in>set body. \<not> throws p n"
  shows "scanBody p body =
     (Inr (), map (nodeAfter p) body,
      p\<lparr>nodesRoot := nodesRoot p @ List.map_filter (scanned p) body\<rparr>)"
  using assms
proof (induction body arbitrary: p)
  case Nil
  show ?case by (simp add: map_filter_simps)
next
  case (Cons n ns)
  let ?p1 = "pushRoot p (scanned p n) True"
  have g: "globals ?p1 = globals p" by simp
  from Cons.prems obtain sv where o: "outcome p n = Inr sv"
    by (cases "outcome p n") (auto simp add: throws_def)
  from Cons.prems have "\<forall>m\<in>set ns. \<not> throws ?p1 m"
    by (simp add: scan_same_globals(4) [OF g])
  then have "scanBody ?p1 ns =
     (Inr (), map (nodeAfter ?p1) ns,
      ?p1\<lparr>nodesRoot := nodesRoot ?p1 @ List.map_filter (scanned ?p1) ns\<rparr>)"
    by (rule Cons.IH)
  moreover have "map (nodeAfter ?p1) ns = map (nodeAfter p) ns"
    by (simp add: scan_same_globals(2) [OF g])
  moreover have "List.map_filter (scanned ?p1) ns = List.map_filter (scanned p) ns"
    by (simp add: map_filter_def scan_same_globals(3) [OF g])
  ultimately show ?case using o
    by (cases "scanned p n") (simp_all add: scanNode_result map_filter_simps pushRoot_def)
qed

lemma scanBody_globals: "globals (snd (snd (scanBody p body))) = globals p"
proof (induction body arbitrary: p)
  case Nil
  show ?case by simp
next
  case (Cons n ns)
  show ?case
  proof (cases "outcome p n")
    case (Inl err)
    then show ?thesis by (simp add: scanNode_result)
  next
    case (Inr sv)
    have "globals (snd (snd (scanBody (pushRoot p (scanned p n) True) ns))) =
        globals (pushRoot p (scanned p n) True)"
      by (rule Cons.IH)
    with Inr show ?thesis
      by (cases "scanBody (pushRoot p (scanned p n) True) ns") (simp add: scanNode_result)
  qed
qed

lemma scanBody_omits:
  assumes "outcome p x = Inr None"
  shows "fst (scanBody p (pre @ x # post)) = fst (scanBody p (pre @ post)) \<and>
         snd (snd (scanBody p (pre @ x # post))) = snd (snd (scanBody p (pre @ post)))"
proof (cases "scanBody p pre")
  case (fields out pre' p1)
  show ?thesis
  proof (cases out)
    case (Inl err)
    with fields show ?thesis by (simp add: scanBody_append)
  next
    case (Inr u)
    from fields have "globals p1 = globals p"
      using scanBody_globals [of p pre] by simp
    with assms have "outcome p1 x = Inr None"
      using scan_same_globals(1) [of p1 p x] by simp
    with fields Inr show ?thesis
      by (cases "scanBody p1 post") (simp add: scanBody_append scanNode_result scanned_def)
  qed
qed

lemma parse_fst:
  "fst (parse p ids body) =
     (case fst (scanBody (foldl visitIdentifier p ids) body) of
        Inl err \<Rightarrow> Inl err
      | Inr _ \<Rightarrow> Inr (nodesRoot (snd (snd (scanBody (foldl visitIdentifier p ids) body)))))"
  by (simp add: parse_def split: prod.splits sum.splits)

lemma parse_parser:
  "snd (snd (parse p ids body)) = snd (snd (scanBody (foldl visitIdentifier p ids) body))"
  by (simp add: parse_def split: prod.splits sum.splits)

lemma parse_omits:
  assumes "outcome (foldl visitIdentifier p ids) x = Inr None"
  shows "fst (parse p ids (pre @ x # post)) = fst (parse p ids (pre @ post)) \<and>
         snd (snd (parse p ids (pre @ x # post))) = snd (snd (parse p ids (pre @ post)))"
  using scanBody_omits [OF assms, of pre post]
  by (simp add: parse_fst parse_parser cong: sum.case_cong)

lemma scanBody_last_parser:
  assumes "\<And>q. scanned q x = None"
  shows "snd (snd (scanBody p (pre @ [x]))) = snd (snd (scanBody p pre))"
proof (cases "scanBody p pre")
  case (fields out pre' p1)
  show ?thesis
  proof (cases out)
    case (Inl err)
    with fields show ?thesis by (simp add: scanBody_append)
  next
    case (Inr u)
    from assms have "snd (snd (scanBody p1 [x])) = p1"
      by (cases "outcome p1 x") (simp_all add: scanNode_result)
    with fields Inr show ?thesis
      by (cases "scanBody p1 [x]") (simp add: scanBody_append del: scanBody.simps)
  qed
qed

lemma scanned_ExpressionStatement: "scanned q (Node s e (ExpressionStatement x)) = None"
  by (simp add: scanned_def outcome_ExpressionStatement split: sum.splits)

lemma scanned_OtherNode: "scanned q (Node s e (OtherNode t)) = None"
  by (simp add: scanned_def outcome_leaf)

lemma throws_OtherNode: "\<not> throws q (Node s e (OtherNode t))"
  by (simp add: throws_def outcome_leaf)

section \<open>The scope model\<close>

text \<open>
  C1. The claim: the chained existence check is true iff the name is bound in the scope or
  in an ancestor at any distance. The code asks the scope and its immediate parent only:
  whenever a name is bound in the grandparent and neither in the scope nor in its parent,
  \<open>hasVariableInParentRoot\<close> answers false, while \<open>getVariableInParentRoot\<close>, which
  walks the whole chain, returns the binding.
\<close>

theorem hasVariableInParentRoot_stops_at_parent:
  assumes "parent s = Some m" and "parent m = Some g"
    and "\<not> hasVariable s name" and "\<not> hasVariable m name"
    and "map_of (variables g) name = Some d"
  shows "\<not> hasVariableInParentRoot s name \<and> getVariableInParentRoot s name = Inr d"
proof
  from assms(1,3,4) show "\<not> hasVariableInParentRoot s name"
    by (simp add: hasVariableInParentRoot_def hasVariable_def)
  from assms(5) have g: "getVariableInParentRoot g name = Inr d"
    by (cases g) (simp add: hasVariable_def getVariable_def assert_def)
  from assms(2,4) g have "getVariableInParentRoot m name = Inr d"
    by (cases m) simp
  with assms(1,3) show "getVariableInParentRoot s name = Inr d"
    by (cases s) simp
qed

theorem hasVariableInParentRoot_stops_at_parent_witness:
  "parent inner_scope = Some middle_scope \<and> parent middle_scope = Some outer_scope \<and>
   \<not> hasVariable inner_scope ''x'' \<and> \<not> hasVariable middle_scope ''x'' \<and>
   map_of (variables outer_scope) ''x'' = Some binding_x \<and>
   \<not> hasVariableInParentRoot inner_scope ''x'' \<and>
   getVariableInParentRoot inner_scope ''x'' = Inr binding_x"
proof -
  have a: "parent inner_scope = Some middle_scope" by (simp add: inner_scope_def)
  have b: "parent middle_scope = Some outer_scope" by (simp add: middle_scope_def)
  have c: "\<not> hasVariable inner_scope ''x''" by (simp add: inner_scope_def hasVariable_def)
  have d: "\<not> hasVariable middle_scope ''x''" by (simp add: middle_scope_def hasVariable_def)
  have e: "map_of (variables outer_scope) ''x'' = Some binding_x" by (simp add: outer_scope_def)
  from a b c d e hasVariableInParentRoot_stops_at_parent [OF a b c d e]
  show ?thesis by simp
qed

text \<open>
  C2, as the claim states it, fails: over an existing \<open>let x\<close>, \<open>defineVariable\<close> with the
  kind \<open>var\<close> succeeds.
\<close>

theorem defineVariable_var_over_let:
  "map_of (variables scope_let_x) ''x'' =
     Some \<lparr>def_id = 0, kind = KLet, constant = False, scope = 0\<rparr> \<and>
   defineVariable scope_let_x ''x'' KVar False =
     Inr (\<lparr>def_id = 1, kind = KVar, constant = False, scope = 0\<rparr>,
          SVScope 0 None [(''x'', \<lparr>def_id = 1, kind = KVar, constant = False, scope = 0\<rparr>)])"
  by (simp add: scope_let_x_def defineVariable_def assert_def Let_def)

text \<open>
  C2, amended. \<open>defineVariable\<close> looks at the new kind only: it succeeds when the name is
  not bound in the scope or the new kind is \<open>var\<close>, whatever the kind of the binding that
  is there, and stores the new binding under the name; when the name is bound and the new
  kind is not \<open>var\<close> it fails with the message that the name is already defined.
\<close>

theorem defineVariable_guard:
  "(\<not> hasVariable s name \<or> k = KVar \<longrightarrow>
      (\<exists>d s'. defineVariable s name k c = Inr (d, s') \<and>
               map_of (variables s') name = Some d \<and> kind d = k \<and> constant d = c)) \<and>
   (hasVariable s name \<and> k \<noteq> KVar \<longrightarrow>
      defineVariable s name k c = Inl (AssertionFailed (name @ '' is already defined.'')))"
  by (auto simp add: defineVariable_def assert_def hasVariable_def Let_def AList.update_conv')

theorem defineVariable_guard_witness:
  "\<not> hasVariable (SVScope_new 0 None) ''x'' \<and>
   hasVariable scope_let_x ''x'' \<and> KConst \<noteq> KVar \<and>
   (\<exists>d s'. defineVariable (SVScope_new 0 None) ''x'' KLet False = Inr (d, s') \<and>
            map_of (variables s') ''x'' = Some d \<and> kind d = KLet \<and> constant d = False) \<and>
   (\<exists>d s'. defineVariable scope_let_x ''x'' KVar True = Inr (d, s') \<and>
            map_of (variables s') ''x'' = Some d \<and> kind d = KVar \<and> constant d = True) \<and>
   defineVariable scope_let_x ''x'' KConst True = Inl (AssertionFailed ''x is already defined.'')"
proof -
  have a: "\<not> hasVariable (SVScope_new 0 None) ''x''"
    by (simp add: SVScope_new_def hasVariable_def)
  have b: "hasVariable scope_let_x ''x''"
    by (simp add: scope_let_x_def hasVariable_def)
  from a b
    defineVariable_guard [of "SVScope_new 0 None" "''x''" KLet False]
    defineVariable_guard [of scope_let_x "''x''" KVar True]
    defineVariable_guard [of scope_let_x "''x''" KConst True]
  show ?thesis by simp
qed

text \<open>
  C3. The claim: the ids of the bindings of one scope are dense and increasing from 0, and
  no two names bound in one scope share an id, also after a redefinition \<open>var\<close> over
  \<open>var\<close>. The id is \<open>this.variables.size\<close>, and a redefinition replaces the entry of the
  name without making the map larger: whenever a name bound in the scope is defined again
  and a new name is defined next, both calls succeed and the two bindings, under different
  names in the same scope, have the same id.
\<close>

theorem redefinition_shares_id:
  assumes "hasVariable s a" and "\<not> hasVariable s b"
  shows "\<exists>d1 s1 d2 s2.
           defineVariable s a KVar ca = Inr (d1, s1) \<and>
           defineVariable s1 b k cb = Inr (d2, s2) \<and>
           map_of (variables s2) a = Some d1 \<and> map_of (variables s2) b = Some d2 \<and>
           def_id d1 = def_id d2"
proof -
  let ?d1 = "\<lparr>def_id = length (variables s), kind = KVar, constant = ca, scope = scope_id s\<rparr>"
  let ?s1 = "SVScope (scope_id s) (parent s) (AList.update a ?d1 (variables s))"
  let ?d2 = "\<lparr>def_id = length (variables s), kind = k, constant = cb, scope = scope_id s\<rparr>"
  let ?s2 = "SVScope (scope_id s) (parent s) (AList.update b ?d2 (variables ?s1))"
  from assms have ab: "a \<noteq> b" by auto
  have 1: "defineVariable s a KVar ca = Inr (?d1, ?s1)"
    by (simp add: defineVariable_def assert_def Let_def)
  from assms(1) have len: "length (variables ?s1) = length (variables s)"
    by (simp add: hasVariable_def length_update_present)
  from assms(2) ab have "map_of (variables ?s1) b = None"
    by (simp add: hasVariable_def AList.update_conv')
  with len have 2: "defineVariable ?s1 b k cb = Inr (?d2, ?s2)"
    by (simp add: defineVariable_def assert_def Let_def)
  from ab have 3: "map_of (variables ?s2) a = Some ?d1" "map_of (variables ?s2) b = Some ?d2"
    by (simp_all add: AList.update_conv')
  have 4: "def_id ?d1 = def_id ?d2" by simp
  from 1 2 3 4 show ?thesis by blast
qed

theorem redefinition_shares_id_witness:
  "defineVariables (SVScope_new 7 None) [(''a'', KVar, False), (''b'', KVar, False)] =
     Inr ([\<lparr>def_id = 0, kind = KVar, constant = False, scope = 7\<rparr>,
           \<lparr>def_id = 1, kind = KVar, constant = False, scope = 7\<rparr>], scope_a_b) \<and>
   hasVariable scope_a_b ''a'' \<and> \<not> hasVariable scope_a_b ''c'' \<and>
   (\<exists>d1 s1 d2 s2.
      defineVariable scope_a_b ''a'' KVar False = Inr (d1, s1) \<and>
      defineVariable s1 ''c'' KVar False = Inr (d2, s2) \<and>
      map_of (variables s2) ''a'' = Some d1 \<and> map_of (variables s2) ''c'' = Some d2 \<and>
      def_id d1 = def_id d2) \<and>
   defineVariables scope_a_b [(''a'', KVar, False), (''c'', KVar, False)] =
     Inr ([\<lparr>def_id = 2, kind = KVar, constant = False, scope = 7\<rparr>,
           \<lparr>def_id = 2, kind = KVar, constant = False, scope = 7\<rparr>],
          SVScope 7 None
            [(''a'', \<lparr>def_id = 2, kind = KVar, constant = False, scope = 7\<rparr>),
             (''b'', \<lparr>def_id = 1, kind = KVar, constant = False, scope = 7\<rparr>),
             (''c'', \<lparr>def_id = 2, kind = KVar, constant = False, scope = 7\<rparr>)])"
proof -
  have a: "hasVariable scope_a_b ''a''" by (simp add: scope_a_b_def hasVariable_def)
  have c: "\<not> hasVariable scope_a_b ''c''" by (simp add: scope_a_b_def hasVariable_def)
  have r1: "defineVariables (SVScope_new 7 None) [(''a'', KVar, False), (''b'', KVar, False)] =
     Inr ([\<lparr>def_id = 0, kind = KVar, constant = False, scope = 7\<rparr>,
           \<lparr>def_id = 1, kind = KVar, constant = False, scope = 7\<rparr>], scope_a_b)"
    by (simp add: SVScope_new_def scope_a_b_def defineVariable_def assert_def Let_def)
  have r2: "defineVariables scope_a_b [(''a'', KVar, False), (''c'', KVar, False)] =
     Inr ([\<lparr>def_id = 2, kind = KVar, constant = False, scope = 7\<rparr>,
           \<lparr>def_id = 2, kind = KVar, constant = False, scope = 7\<rparr>],
          SVScope 7 None
            [(''a'', \<lparr>def_id = 2, kind = KVar, constant = False, scope = 7\<rparr>),
             (''b'', \<lparr>def_id = 1, kind = KVar, constant = False, scope = 7\<rparr>),
             (''c'', \<lparr>def_id = 2, kind = KVar, constant = False, scope = 7\<rparr>)])"
    by (simp add: scope_a_b_def defineVariable_def assert_def Let_def)
  from a c r1 r2 redefinition_shares_id [OF a c, of False KVar False]
  show ?thesis by simp
qed

text \<open>
  C6. For every chain of nested scopes, \<open>getVariableInParentRoot\<close> returns the binding of
  the first scope of the chain (the scope itself, then its ancestors in order) that binds
  the name, so a binding that only the outermost ancestor holds is found from the
  innermost scope; when no scope of the chain binds the name, it fails with the error that
  the name is not defined.
\<close>

theorem getVariableInParentRoot_walks_chain:
  "(chain s = pre @ t # post \<and> (\<forall>u\<in>set pre. \<not> hasVariable u name) \<and>
      map_of (variables t) name = Some d
      \<longrightarrow> getVariableInParentRoot s name = Inr d) \<and>
   ((\<forall>u\<in>set (chain s). \<not> hasVariable u name)
      \<longrightarrow> getVariableInParentRoot s name = Inl (Error (name @ '' is not defined.'')))"
proof (intro conjI impI)
  assume a: "chain s = pre @ t # post \<and> (\<forall>u\<in>set pre. \<not> hasVariable u name) \<and>
      map_of (variables t) name = Some d"
  then have "hasVariable t name" by (simp add: hasVariable_def)
  with a have "List.find (\<lambda>t. hasVariable t name) (chain s) = Some t"
    by (simp add: find_first)
  with a show "getVariableInParentRoot s name = Inr d"
    by (simp add: getVariableInParentRoot_find getVariable_Some)
next
  assume "\<forall>u\<in>set (chain s). \<not> hasVariable u name"
  then have "List.find (\<lambda>t. hasVariable t name) (chain s) = None"
    by (rule find_none)
  then show "getVariableInParentRoot s name = Inl (Error (name @ '' is not defined.''))"
    by (simp add: getVariableInParentRoot_find)
qed

theorem getVariableInParentRoot_walks_chain_witness:
  "chain inner_scope = [inner_scope, middle_scope] @ outer_scope # [] \<and>
   \<not> hasVariable inner_scope ''x'' \<and> \<not> hasVariable middle_scope ''x'' \<and>
   map_of (variables outer_scope) ''x'' = Some binding_x \<and>
   getVariableInParentRoot inner_scope ''x'' = Inr binding_x \<and>
   \<not> hasVariable inner_scope ''y'' \<and> \<not> hasVariable middle_scope ''y'' \<and>
   \<not> hasVariable outer_scope ''y'' \<and>
   getVariableInParentRoot inner_scope ''y'' = Inl (Error ''y is not defined.'')"
proof -
  have c: "chain inner_scope = [inner_scope, middle_scope] @ outer_scope # []"
    by (simp add: inner_scope_def middle_scope_def outer_scope_def)
  have x: "\<not> hasVariable inner_scope ''x''" "\<not> hasVariable middle_scope ''x''"
    by (simp_all add: inner_scope_def middle_scope_def hasVariable_def)
  have m: "map_of (variables outer_scope) ''x'' = Some binding_x"
    by (simp add: outer_scope_def)
  have y: "\<not> hasVariable inner_scope ''y''" "\<not> hasVariable middle_scope ''y''"
      "\<not> hasVariable outer_scope ''y''"
    by (simp_all add: inner_scope_def middle_scope_def outer_scope_def hasVariable_def)
  from c x m y
    getVariableInParentRoot_walks_chain [of inner_scope "[inner_scope, middle_scope]"
      outer_scope "[]" "''x''" binding_x]
    getVariableInParentRoot_walks_chain [of inner_scope "[]" inner_scope
      "[middle_scope, outer_scope]" "''y''" binding_x]
  show ?thesis by simp
qed

section \<open>Literals\<close>

text \<open>
  C7. For each of the three literal kinds, the constructor of \<open>SVLiteral\<close> given a value
  whose \<open>typeof\<close> is the kind returns a \<open>Literal\<close> node that holds the value, so the
  kind of the value held is the declared kind; given a value whose \<open>typeof\<close> is not the
  kind, it fails in its assertion and no node is made.
\<close>

theorem SVLiteral_checked:
  "(typeof v = typeName t \<longrightarrow>
      (\<exists>node. SVLiteral_new t v = Inr node \<and> lit_value node = v \<and>
              typeof (lit_value node) = typeName t \<and> nodeType node = ''Literal'')) \<and>
   (typeof v \<noteq> typeName t \<longrightarrow> (\<exists>m. SVLiteral_new t v = Inl (AssertionFailed m)))"
  by (cases t) (auto simp add: assert_def)

theorem SVLiteral_checked_witness:
  "typeof (JSNumber (3::int)) = typeName TNumber \<and>
   SVLiteral_new TNumber (JSNumber (3::int)) = Inr (SVLiteral (JSNumber 3)) \<and>
   typeof (JSNumber (3::int)) \<noteq> typeName TString \<and>
   SVLiteral_new TString (JSNumber (3::int)) =
     Inl (AssertionFailed ''The value of a string literal node must be of type string'')"
  using SVLiteral_checked [of "JSNumber (3::int)" TNumber]
    SVLiteral_checked [of "JSNumber (3::int)" TString]
  by (simp add: assert_def)

section \<open>The transformation\<close>




text \<open>
  C5. An expression statement scanned at the top level returns no node and leaves the
  parser, and so \<open>nodesRoot\<close>, as it was, also when the scan of its expression throws;
  its expression is scanned as a child. The parser after \<open>parse\<close> of a program that ends
  with the statement is the parser after \<open>parse\<close> of the program without it; when the
  expression is scanned without a failure, \<open>parse\<close> of a program gives what it gives for
  the program without the statement; and the program \<open>doSomething();\<close> gives the empty
  sequence.
\<close>

theorem expression_statement_dropped:
  "scanNode p (Node s e (ExpressionStatement x)) True =
     (case outcome p x of Inl err \<Rightarrow> Inl err | Inr _ \<Rightarrow> Inr None,
      Node s e (ExpressionStatement (nodeAfter p x)), p) \<and>
   snd (snd (parse p ids (pre @ [Node s e (ExpressionStatement x)]))) =
     snd (snd (parse p ids pre)) \<and>
   (\<not> throws (foldl visitIdentifier p ids) x \<longrightarrow>
      fst (parse p ids (pre @ Node s e (ExpressionStatement x) # post)) =
        fst (parse p ids (pre @ post)) \<and>
      snd (snd (parse p ids (pre @ Node s e (ExpressionStatement x) # post))) =
        snd (snd (parse p ids (pre @ post)))) \<and>
   parse Parser_new [(''doSomething'', True)]
       [Node 0 14 (ExpressionStatement (Node 0 13 (OtherNode ''CallExpression'')))] =
     (Inr [], [Node 0 14 (ExpressionStatement (Node 0 13 (OtherNode ''CallExpression'')))],
      \<lparr>globals = {''doSomething''}, nodesRoot = []\<rparr>)"
proof (intro conjI impI)
  show "scanNode p (Node s e (ExpressionStatement x)) True =
     (case outcome p x of Inl err \<Rightarrow> Inl err | Inr _ \<Rightarrow> Inr None,
      Node s e (ExpressionStatement (nodeAfter p x)), p)"
    by (rule scanNode_ExpressionStatement)
  show "snd (snd (parse p ids (pre @ [Node s e (ExpressionStatement x)]))) =
     snd (snd (parse p ids pre))"
    unfolding parse_parser by (rule scanBody_last_parser) (rule scanned_ExpressionStatement)
  show "parse Parser_new [(''doSomething'', True)]
       [Node 0 14 (ExpressionStatement (Node 0 13 (OtherNode ''CallExpression'')))] =
     (Inr [], [Node 0 14 (ExpressionStatement (Node 0 13 (OtherNode ''CallExpression'')))],
      \<lparr>globals = {''doSomething''}, nodesRoot = []\<rparr>)"
    by (simp add: parse_def Parser_new_def visitIdentifier_def)
next
  assume "\<not> throws (foldl visitIdentifier p ids) x"
  then have o: "outcome (foldl visitIdentifier p ids) (Node s e (ExpressionStatement x)) = Inr None"
    by (cases "outcome (foldl visitIdentifier p ids) x")
       (simp_all add: throws_def outcome_ExpressionStatement)
  from parse_omits [OF o, of pre post]
  show "fst (parse p ids (pre @ Node s e (ExpressionStatement x) # post)) =
        fst (parse p ids (pre @ post))"
    and "snd (snd (parse p ids (pre @ Node s e (ExpressionStatement x) # post))) =
        snd (snd (parse p ids (pre @ post)))"
    by simp_all
qed

theorem expression_statement_dropped_witness:
  "\<not> throws (foldl visitIdentifier (Parser_new :: int Parser) [])
       (Node 0 13 (OtherNode ''CallExpression'')) \<and>
   fst (parse (Parser_new :: int Parser) []
          ([] @ Node 0 14 (ExpressionStatement (Node 0 13 (OtherNode ''CallExpression''))) #
             [Node 15 17 (OtherNode ''EmptyStatement'')])) =
     Inr [] \<and>
   fst (parse (Parser_new :: int Parser) [] ([] @ [Node 15 17 (OtherNode ''EmptyStatement'')])) =
     Inr []"
proof -
  have a: "\<not> throws (foldl visitIdentifier (Parser_new :: int Parser) [])
       (Node 0 13 (OtherNode ''CallExpression''))"
    by (simp add: throws_def outcome_leaf)
  have b: "fst (parse (Parser_new :: int Parser) []
      ([] @ [Node 15 17 (OtherNode ''EmptyStatement'')])) = Inr []"
    by (simp add: parse_def Parser_new_def)
  note t = expression_statement_dropped
      [of "Parser_new :: int Parser" 0 14 "Node 0 13 (OtherNode ''CallExpression'')" "[]" "[]"
        "[Node 15 17 (OtherNode ''EmptyStatement'')]"]
  from a t [THEN conjunct2, THEN conjunct2, THEN conjunct1]
  have "fst (parse (Parser_new :: int Parser) []
          ([] @ Node 0 14 (ExpressionStatement (Node 0 13 (OtherNode ''CallExpression''))) #
             [Node 15 17 (OtherNode ''EmptyStatement'')])) =
     fst (parse (Parser_new :: int Parser) [] ([] @ [Node 15 17 (OtherNode ''EmptyStatement'')]))"
    by blast
  with a b show ?thesis by (simp only:) simp
qed

text \<open>
  C8. The claim: a declaration statement gives one \<open>VariableDefinition\<close> node with an
  entry for each declarator whose pattern is an identifier. The code runs the loop over the
  declarators and then calls \<open>new SVDefinition(variables)\<close>, a name that
  \<open>parser/nodes.ts\<close> does not export: for every declaration statement the scan throws,
  returns no node and appends nothing to \<open>nodesRoot\<close>; when no initializer throws first,
  the error is the \<open>TypeError\<close> of that call.
\<close>

theorem declaration_statement_throws:
  "(\<exists>err. fst (scanNode p (Node s e (VariableDeclaration k ds)) r) = Inl err) \<and>
   snd (snd (scanNode p (Node s e (VariableDeclaration k ds)) r)) = p \<and>
   ((\<forall>i x. VariableDeclarator i (Some x) \<in> set ds \<longrightarrow> \<not> throws p x) \<longrightarrow>
      fst (scanNode p (Node s e (VariableDeclaration k ds)) r) =
        Inl (TypeError ''SVDefinition is not a constructor''))"
proof (intro conjI impI)
  show "\<exists>err. fst (scanNode p (Node s e (VariableDeclaration k ds)) r) = Inl err"
    by (simp add: scanNode_VariableDeclaration del: scanNode.simps split: sum.splits)
  show "snd (snd (scanNode p (Node s e (VariableDeclaration k ds)) r)) = p"
    by (simp add: scanNode_VariableDeclaration del: scanNode.simps)
next
  assume "\<forall>i x. VariableDeclarator i (Some x) \<in> set ds \<longrightarrow> \<not> throws p x"
  then obtain vars where "declarationsOutcome p k ds = Inr vars"
    using declarationsOutcome_present by blast
  then show "fst (scanNode p (Node s e (VariableDeclaration k ds)) r) =
        Inl (TypeError ''SVDefinition is not a constructor'')"
    by (simp add: scanNode_VariableDeclaration del: scanNode.simps)
qed

theorem declaration_statement_throws_witness:
  "\<not> throws (Parser_new :: int Parser) (Node 8 9 (NumericLiteral 1)) \<and>
   fst (scanNode (Parser_new :: int Parser)
     (Node 0 13 (VariableDeclaration ''let''
        [VariableDeclarator (Node 4 5 (Identifier ''a'')) (Some (Node 8 9 (NumericLiteral 1))),
         VariableDeclarator (Node 11 12 (Identifier ''b'')) None])) True) =
     Inl (TypeError ''SVDefinition is not a constructor'')"
proof -
  have a: "\<not> throws (Parser_new :: int Parser) (Node 8 9 (NumericLiteral 1))"
    by (simp add: throws_def outcome_leaf)
  from a declaration_statement_throws
      [of "Parser_new :: int Parser" 0 13 "''let''"
        "[VariableDeclarator (Node 4 5 (Identifier ''a'')) (Some (Node 8 9 (NumericLiteral 1))),
          VariableDeclarator (Node 11 12 (Identifier ''b'')) None]" True]
  show ?thesis by (simp del: scanNode.simps)
qed

text \<open>
  C9. A node of a type outside the ten of the \<open>switch\<close> gives no node and no error, at the
  top level or as a child, and leaves the parser as it was. \<open>parse\<close> of a program with
  such a statement gives the outcome and the parser that it gives for the program without
  it. The statements after it are still transformed: when no statement of the program
  throws, \<open>parse\<close> returns the nodes of all the other statements in their order, and
  leaves every other statement as its own scan leaves it and the unsupported one as it was.
\<close>

theorem unsupported_kind_skipped:
  "scanNode p (Node s e (OtherNode t)) r = (Inr None, Node s e (OtherNode t), p) \<and>
   fst (parse p ids (pre @ Node s e (OtherNode t) # post)) = fst (parse p ids (pre @ post)) \<and>
   snd (snd (parse p ids (pre @ Node s e (OtherNode t) # post))) =
     snd (snd (parse p ids (pre @ post))) \<and>
   (let p0 = foldl visitIdentifier p ids in
    (\<forall>n\<in>set (pre @ post). \<not> throws p0 n) \<longrightarrow>
      parse p ids (pre @ Node s e (OtherNode t) # post) =
        (Inr (nodesRoot p0 @ List.map_filter (scanned p0) (pre @ post)),
         map (nodeAfter p0) pre @ Node s e (OtherNode t) # map (nodeAfter p0) post,
         p0\<lparr>nodesRoot := nodesRoot p0 @ List.map_filter (scanned p0) (pre @ post)\<rparr>))"
proof (intro conjI)
  show "scanNode p (Node s e (OtherNode t)) r = (Inr None, Node s e (OtherNode t), p)"
    by simp
  have o: "outcome (foldl visitIdentifier p ids) (Node s e (OtherNode t)) = Inr None"
    by (simp add: outcome_leaf)
  from parse_omits [OF o, of pre post]
  show "fst (parse p ids (pre @ Node s e (OtherNode t) # post)) = fst (parse p ids (pre @ post))"
    and "snd (snd (parse p ids (pre @ Node s e (OtherNode t) # post))) =
     snd (snd (parse p ids (pre @ post)))"
    by simp_all
  show "let p0 = foldl visitIdentifier p ids in
    (\<forall>n\<in>set (pre @ post). \<not> throws p0 n) \<longrightarrow>
      parse p ids (pre @ Node s e (OtherNode t) # post) =
        (Inr (nodesRoot p0 @ List.map_filter (scanned p0) (pre @ post)),
         map (nodeAfter p0) pre @ Node s e (OtherNode t) # map (nodeAfter p0) post,
         p0\<lparr>nodesRoot := nodesRoot p0 @ List.map_filter (scanned p0) (pre @ post)\<rparr>)"
    unfolding Let_def
  proof
    let ?p0 = "foldl visitIdentifier p ids"
    let ?x = "Node s e (OtherNode t)"
    assume "\<forall>n\<in>set (pre @ post). \<not> throws ?p0 n"
    then have "\<forall>n\<in>set (pre @ ?x # post). \<not> throws ?p0 n"
      by (auto simp add: throws_OtherNode)
    then have "scanBody ?p0 (pre @ ?x # post) =
       (Inr (), map (nodeAfter ?p0) (pre @ ?x # post),
        ?p0\<lparr>nodesRoot := nodesRoot ?p0 @ List.map_filter (scanned ?p0) (pre @ ?x # post)\<rparr>)"
      by (rule scanBody_succeeds)
    moreover have "List.map_filter (scanned ?p0) (pre @ ?x # post) =
        List.map_filter (scanned ?p0) (pre @ post)"
      by (simp add: map_filter_def scanned_OtherNode)
    ultimately show "parse p ids (pre @ ?x # post) =
        (Inr (nodesRoot ?p0 @ List.map_filter (scanned ?p0) (pre @ post)),
         map (nodeAfter ?p0) pre @ ?x # map (nodeAfter ?p0) post,
         ?p0\<lparr>nodesRoot := nodesRoot ?p0 @ List.map_filter (scanned ?p0) (pre @ post)\<rparr>)"
      by (simp add: parse_def nodeAfter_leaf)
  qed
qed

theorem unsupported_kind_skipped_witness:
  "\<not> throws (foldl visitIdentifier Parser_new []) statement_1_2 \<and>
   parse Parser_new [] ([] @ Node 8 9 (OtherNode ''EmptyStatement'') # [statement_1_2]) =
     (Inr [], [Node 8 9 (OtherNode ''EmptyStatement''), statement_2_1], Parser_new)"
proof -
  have a: "\<not> throws (foldl visitIdentifier Parser_new []) statement_1_2"
    by (simp add: throws_def statement_1_2_def scan_folded)
  have b: "scanned Parser_new statement_1_2 = None"
    by (simp add: statement_1_2_def scanned_ExpressionStatement)
  have c: "nodeAfter Parser_new statement_1_2 = statement_2_1"
    by (simp add: statement_1_2_def statement_2_1_def scan_folded)
  note t = unsupported_kind_skipped
      [of Parser_new 8 9 "''EmptyStatement''" True "[]" "[]" "[statement_1_2]"]
  from a t [THEN conjunct2, THEN conjunct2, THEN conjunct2]
  have "parse Parser_new [] ([] @ Node 8 9 (OtherNode ''EmptyStatement'') # [statement_1_2]) =
     (Inr (nodesRoot Parser_new @ List.map_filter (scanned Parser_new) ([] @ [statement_1_2])),
      map (nodeAfter Parser_new) [] @ Node 8 9 (OtherNode ''EmptyStatement'') #
        map (nodeAfter Parser_new) [statement_1_2],
      Parser_new\<lparr>nodesRoot := nodesRoot Parser_new @
        List.map_filter (scanned Parser_new) ([] @ [statement_1_2])\<rparr>)"
    by (simp add: Let_def)
  with a b c show ?thesis by (simp add: map_filter_simps Parser_new_def)
qed




end
